theory Spec2Isabelle
  imports Complex_Main
begin

section \<open>Data model of small_ranch_grid.py\<close>

text \<open>
  The script works on GeoPandas dataframes. A dataframe is modelled by what the script
  reads and writes of it: the ordered geometry column and the CRS tag. Coordinates are
  finite reals; the one non-finite value the script can meet, the NaN bounds of a
  dataframe without coordinates, is the \<open>None\<close> of \<open>total_bounds\<close>.
\<close>

type_synonym point = "real \<times> real"

datatype geometry = Point point | Polygon "point list"

fun coords :: "geometry \<Rightarrow> point list" where
  "coords (Point p) = [p]"
| "coords (Polygon ps) = ps"

record gdf =
  geometry :: "geometry list"
  crs :: "string option"

text \<open>
  Exceptions are values. \<open>ValueError\<close> is what Python raises for \<open>int(nan)\<close> and for
  \<open>range\<close> with step 0; \<open>LibraryError\<close> stands for any exception raised inside a call
  into fiona, geopandas or pyproj, which the script never catches.
\<close>

datatype error = ValueError | LibraryError string

subsection \<open>Library primitives used by the script\<close>

text \<open>
  \<open>gdf.total_bounds\<close>: minimum and maximum of all coordinates, in the order
  \<open>(xmin, ymin, xmax, ymax)\<close>; an array of NaN when there is no coordinate.
\<close>

definition all_coords :: "gdf \<Rightarrow> point list" where
  "all_coords g = concat (map coords (geometry g))"

definition total_bounds :: "gdf \<Rightarrow> (real \<times> real \<times> real \<times> real) option" where
  "total_bounds g =
     (let ps = all_coords g in
      if ps = [] then None
      else Some (Min (set (map fst ps)), Min (set (map snd ps)),
                 Max (set (map fst ps)), Max (set (map snd ps))))"

text \<open>
  Python's \<open>range(start, stop, step)\<close>, as the loop it abbreviates: count from
  \<open>start\<close> in steps of \<open>step\<close> while the value has not reached \<open>stop\<close>. Step 0
  raises ValueError.
\<close>

function range_up :: "int \<Rightarrow> int \<Rightarrow> int \<Rightarrow> int list" where
  "range_up i stop step =
     (if 0 < step \<and> i < stop then i # range_up (i + step) stop step else [])"
  by pat_completeness auto
termination
  by (relation "measure (\<lambda>(i, stop, step). nat (stop - i))") auto

function range_down :: "int \<Rightarrow> int \<Rightarrow> int \<Rightarrow> int list" where
  "range_down i stop step =
     (if step < 0 \<and> stop < i then i # range_down (i + step) stop step else [])"
  by pat_completeness auto
termination
  by (relation "measure (\<lambda>(i, stop, step). nat (i - stop))") auto

declare range_up.simps [simp del]
declare range_down.simps [simp del]

definition range_py :: "int \<Rightarrow> int \<Rightarrow> int \<Rightarrow> error + int list" where
  "range_py start stop step =
     (if step = 0 then Inl ValueError
      else if 0 < step then Inr (range_up start stop step)
      else Inr (range_down start stop step))"

section \<open>generate_grid\<close>

text \<open>Lines 125 and 123: the two constants of the function.\<close>

definition meters_on_side_of_acre :: int where
  "meters_on_side_of_acre = 64"

definition metric_crs :: string where
  "metric_crs = ''epsg:2773''"

text \<open>
  Lines 126 to 129: \<open>int(np.floor(v))\<close> for each bound. \<open>int\<close> of NaN raises
  ValueError.
\<close>

definition int_bounds ::
  "(real \<times> real \<times> real \<times> real) option \<Rightarrow> error + (int \<times> int \<times> int \<times> int)" where
  "int_bounds b =
     (case b of
        None \<Rightarrow> Inl ValueError
      | Some (xmin, ymin, xmax, ymax) \<Rightarrow>
          Inr (\<lfloor>xmin\<rfloor>, \<lfloor>ymin\<rfloor>, \<lfloor>xmax\<rfloor>, \<lfloor>ymax\<rfloor>))"

text \<open>
  Lines 131 to 145, with the local constant \<open>meters_on_side_of_acre\<close> as the argument
  \<open>s\<close>; \<open>generate_grid\<close> below passes 64. The two nested \<open>for\<close> loops append to
  \<open>polygons\<close>, so they are left folds over an accumulator. A cell is the list of
  the four corners handed to \<open>Polygon\<close>, in the order given; shapely closes the ring by
  itself. The corners are Python integers, so \<open>x + s\<close> and \<open>y - s\<close> are computed in
  the integers.
\<close>

definition cell :: "int \<Rightarrow> int \<Rightarrow> int \<Rightarrow> geometry" where
  "cell s x y =
     Polygon [(of_int x, of_int y),
              (of_int (x + s), of_int y),
              (of_int (x + s), of_int (y - s)),
              (of_int x, of_int (y - s))]"

definition grid_cols :: "int \<Rightarrow> int \<times> int \<times> int \<times> int \<Rightarrow> error + int list" where
  "grid_cols s b = (case b of (int_xmin, int_ymin, int_xmax, int_ymax) \<Rightarrow>
     range_py int_xmin int_xmax s)"

definition grid_rows :: "int \<Rightarrow> int \<times> int \<times> int \<times> int \<Rightarrow> error + int list" where
  "grid_rows s b = (case b of (int_xmin, int_ymin, int_xmax, int_ymax) \<Rightarrow>
     (case range_py int_ymin int_ymax s of
        Inl e \<Rightarrow> Inl e
      | Inr rows \<Rightarrow> Inr (rev rows)))"

definition append_cells :: "int \<Rightarrow> int list \<Rightarrow> int list \<Rightarrow> geometry list" where
  "append_cells s cols rows =
     foldl (\<lambda>polygons x. foldl (\<lambda>polygons y. polygons @ [cell s x y]) polygons rows) [] cols"

definition grid_polygons :: "int \<Rightarrow> int \<times> int \<times> int \<times> int \<Rightarrow> error + geometry list" where
  "grid_polygons s b =
     (case grid_cols s b of
        Inl e \<Rightarrow> Inl e
      | Inr cols \<Rightarrow>
          (case grid_rows s b of
             Inl e \<Rightarrow> Inl e
           | Inr rows \<Rightarrow> Inr (append_cells s cols rows)))"

text \<open>
  The reprojection \<open>to_crs\<close> is geopandas code; it is a parameter, taking the dataframe
  and the target CRS and returning a new dataframe or raising.

  \<open>metric_cells\<close> is lines 123 to 145: the cells in the metric CRS, before they are put
  into a dataframe.
\<close>

type_synonym reprojection = "gdf \<Rightarrow> string option \<Rightarrow> error + gdf"

definition metric_cells :: "reprojection \<Rightarrow> gdf \<Rightarrow> error + geometry list" where
  "metric_cells to_crs g =
     (case to_crs g (Some metric_crs) of
        Inl e \<Rightarrow> Inl e
      | Inr meters_gdf \<Rightarrow>
          (case int_bounds (total_bounds meters_gdf) of
             Inl e \<Rightarrow> Inl e
           | Inr b \<Rightarrow> grid_polygons meters_on_side_of_acre b))"

definition generate_grid :: "reprojection \<Rightarrow> gdf \<Rightarrow> error + gdf" where
  "generate_grid to_crs g =
     (let ref_crs = crs g in
      case metric_cells to_crs g of
        Inl e \<Rightarrow> Inl e
      | Inr polygons \<Rightarrow>
          (let grid_gdf = \<lparr>geometry = polygons, crs = None\<rparr>;
               grid_gdf = grid_gdf\<lparr>crs := Some metric_crs\<rparr>
           in to_crs grid_gdf ref_crs))"

subsection \<open>generate_grid on an object store\<close>

text \<open>
  Python passes dataframes by reference, and line 150 assigns to an attribute of one. To
  see which objects the function writes, the same statements are run on a store of
  dataframes, an address being an index into it. \<open>to_crs\<close> is called without
  \<open>inplace\<close>, so it returns a new dataframe and leaves its receiver alone: it stays a
  function on values, and its result is allocated. The caller's reference \<open>r\<close> is an
  address of the store.
\<close>

type_synonym store = "gdf list"

definition alloc :: "store \<Rightarrow> gdf \<Rightarrow> nat \<times> store" where
  "alloc h v = (length h, h @ [v])"

definition generate_grid_store :: "reprojection \<Rightarrow> store \<Rightarrow> nat \<Rightarrow> (error + nat) \<times> store" where
  "generate_grid_store to_crs h r =
     (let ref_crs = crs (h ! r) in
      case to_crs (h ! r) (Some metric_crs) of
        Inl e \<Rightarrow> (Inl e, h)
      | Inr m \<Rightarrow>
          (case alloc h m of (meters_gdf, h1) \<Rightarrow>
             (case int_bounds (total_bounds (h1 ! meters_gdf)) of
                Inl e \<Rightarrow> (Inl e, h1)
              | Inr b \<Rightarrow>
                  (case grid_polygons meters_on_side_of_acre b of
                     Inl e \<Rightarrow> (Inl e, h1)
                   | Inr polygons \<Rightarrow>
                       (case alloc h1 \<lparr>geometry = polygons, crs = None\<rparr> of (grid_gdf, h2) \<Rightarrow>
                          (let h3 = h2[grid_gdf := (h2 ! grid_gdf)\<lparr>crs := Some metric_crs\<rparr>] in
                           case to_crs (h3 ! grid_gdf) ref_crs of
                             Inl e \<Rightarrow> (Inl e, h3)
                           | Inr out \<Rightarrow>
                               (case alloc h3 out of (res, h4) \<Rightarrow> (Inr res, h4))))))))"

section \<open>get_geo_dataframe\<close>

text \<open>
  \<open>fiona.listlayers\<close> and \<open>gpd.read_file\<close> are parameters: each returns its result or
  raises. \<open>gdf.append(s, ignore_index=True)\<close> returns a dataframe with the rows of
  \<open>gdf\<close> followed by the rows of \<open>s\<close>; which CRS tag pandas leaves on it is not decided
  by the script, so it is the parameter \<open>join\<close>.
\<close>

definition append_gdf ::
  "(string option \<Rightarrow> string option \<Rightarrow> string option) \<Rightarrow> gdf \<Rightarrow> gdf \<Rightarrow> gdf" where
  "append_gdf join g s = \<lparr>geometry = geometry g @ geometry s, crs = join (crs g) (crs s)\<rparr>"

fun append_layers ::
  "(string \<Rightarrow> error + gdf) \<Rightarrow> (string option \<Rightarrow> string option \<Rightarrow> string option) \<Rightarrow>
   gdf \<Rightarrow> string list \<Rightarrow> error + gdf" where
  "append_layers read_layer join g [] = Inr g"
| "append_layers read_layer join g (layer # layers) =
     (case read_layer layer of
        Inl e \<Rightarrow> Inl e
      | Inr s \<Rightarrow> append_layers read_layer join (append_gdf join g s) layers)"

definition get_geo_dataframe ::
  "(string \<Rightarrow> error + string list) \<Rightarrow> (string \<Rightarrow> string \<Rightarrow> error + gdf) \<Rightarrow>
   (string option \<Rightarrow> string option \<Rightarrow> string option) \<Rightarrow> string \<Rightarrow> error + gdf" where
  "get_geo_dataframe listlayers read_file join kml_file =
     (case listlayers kml_file of
        Inl e \<Rightarrow> Inl e
      | Inr layers \<Rightarrow>
          append_layers (read_file kml_file) join \<lparr>geometry = [], crs = None\<rparr> layers)"

section \<open>Notions of the specification\<close>

text \<open>
  The specification speaks of a cell lying within a region and of two cells overlapping
  in area. Both are stated on the corner coordinates: a geometry lies within
  \<open>[x0, x1) \<times> (y0, y1]\<close> when each of its coordinates does, and two geometries overlap
  in area when the interiors of their bounding rectangles meet (for the axis-parallel
  squares of the grid the bounding rectangle is the square itself).
\<close>

definition within_region :: "geometry \<Rightarrow> int \<times> int \<times> int \<times> int \<Rightarrow> bool" where
  "within_region c b = (case b of (x0, y0, x1, y1) \<Rightarrow>
     list_all (\<lambda>(px, py). of_int x0 \<le> px \<and> px < of_int x1 \<and> of_int y0 < py \<and> py \<le> of_int y1)
       (coords c))"

definition overlap_area :: "geometry \<Rightarrow> geometry \<Rightarrow> bool" where
  "overlap_area c d =
     (case (total_bounds \<lparr>geometry = [c], crs = None\<rparr>,
            total_bounds \<lparr>geometry = [d], crs = None\<rparr>) of
        (Some (cx0, cy0, cx1, cy1), Some (dx0, dy0, dx1, dy1)) \<Rightarrow>
          cx0 < dx1 \<and> dx0 < cx1 \<and> cy0 < dy1 \<and> dy0 < cy1
      | _ \<Rightarrow> False)"

section \<open>Concrete inputs\<close>

text \<open>
  A reference dataframe with one rectangle whose corners are (1000, 2000) and
  (1128, 2128), and a reprojection that keeps every coordinate and only sets the tag.
\<close>

definition reference_box :: gdf where
  "reference_box =
     \<lparr>geometry = [Polygon [(1000, 2000), (1128, 2000), (1128, 2128), (1000, 2128)]],
      crs = Some ''epsg:4326''\<rparr>"


definition retag :: reprojection where
  "retag g c = Inr (g\<lparr>crs := c\<rparr>)"

text \<open>A reference dataframe with one rectangle from (0, 0) to (100, 64).\<close>

definition reference_strip :: gdf where
  "reference_strip =
     \<lparr>geometry = [Polygon [(0, 0), (100, 0), (100, 64), (0, 64)]],
      crs = Some ''epsg:4326''\<rparr>"



text \<open>
  Sources for \<open>get_geo_dataframe\<close>: one without layers, one that cannot be opened, one
  with two layers; a reader that parses both layers and one that fails on the second; and
  a CRS join that keeps the first tag seen.
\<close>

definition no_layers :: "string \<Rightarrow> error + string list" where
  "no_layers kml_file = Inr []"

definition unreadable :: "string \<Rightarrow> error + string list" where
  "unreadable kml_file = Inl (LibraryError ''DriverError'')"

definition two_layers :: "string \<Rightarrow> error + string list" where
  "two_layers kml_file = Inr [''parcels'', ''fences'']"

definition read_sample :: "string \<Rightarrow> string \<Rightarrow> error + gdf" where
  "read_sample kml_file layer =
     (if layer = ''parcels'' then
        Inr \<lparr>geometry = [Point (1, 2), Point (1, 2)], crs = Some ''epsg:4326''\<rparr>
      else if layer = ''fences'' then
        Inr \<lparr>geometry = [Polygon [(0, 0), (1, 0), (0, 0)]], crs = Some ''epsg:4326''\<rparr>
      else Inl (LibraryError ''ValueError''))"

definition read_broken :: "string \<Rightarrow> string \<Rightarrow> error + gdf" where
  "read_broken kml_file layer =
     (if layer = ''parcels'' then
        Inr \<lparr>geometry = [Point (1, 2), Point (1, 2)], crs = Some ''epsg:4326''\<rparr>
      else Inl (LibraryError ''ValueError''))"

definition first_crs :: "string option \<Rightarrow> string option \<Rightarrow> string option" where
  "first_crs a b = (case a of None \<Rightarrow> b | Some c \<Rightarrow> Some c)"

section \<open>Python's range\<close>

lemma range_up_Nil: "\<not> (0 < s \<and> a < b) \<Longrightarrow> range_up a b s = []"
  by (subst range_up.simps) simp

lemma range_up_Cons: "0 < s \<Longrightarrow> a < b \<Longrightarrow> range_up a b s = a # range_up (a + s) b s"
  by (subst range_up.simps) simp

lemma range_up_nth:
  "k < length (range_up a b s) \<Longrightarrow> range_up a b s ! k = a + int k * s"
proof (induction a b s arbitrary: k rule: range_up.induct)
  case (1 i stop step)
  show ?case
  proof (cases "0 < step \<and> i < stop")
    case True
    then have eq: "range_up i stop step = i # range_up (i + step) stop step"
      by (simp add: range_up_Cons)
    show ?thesis
    proof (cases k)
      case 0
      then show ?thesis by (simp add: eq)
    next
      case (Suc j)
      with "1.prems" eq have "j < length (range_up (i + step) stop step)" by simp
      from "1.IH" [OF True this] Suc show ?thesis
        by (simp add: eq algebra_simps)
    qed
  next
    case False
    with "1.prems" show ?thesis by (simp add: range_up_Nil)
  qed
qed


lemma range_up_lt:
  "k < length (range_up a b s) \<Longrightarrow> a + int k * s < b"
proof (induction a b s arbitrary: k rule: range_up.induct)
  case (1 i stop step)
  show ?case
  proof (cases "0 < step \<and> i < stop")
    case True
    then have eq: "range_up i stop step = i # range_up (i + step) stop step"
      by (simp add: range_up_Cons)
    show ?thesis
    proof (cases k)
      case 0
      with True show ?thesis by simp
    next
      case (Suc j)
      with "1.prems" eq have "j < length (range_up (i + step) stop step)" by simp
      from "1.IH" [OF True this] Suc show ?thesis
        by (simp add: algebra_simps)
    qed
  next
    case False
    with "1.prems" show ?thesis by (simp add: range_up_Nil)
  qed
qed

lemma range_up_stop:
  "0 < s \<Longrightarrow> b \<le> a + int (length (range_up a b s)) * s"
proof (induction a b s rule: range_up.induct)
  case (1 i stop step)
  show ?case
  proof (cases "i < stop")
    case True
    with "1.prems" have eq: "range_up i stop step = i # range_up (i + step) stop step"
      by (simp add: range_up_Cons)
    from "1.IH" True "1.prems"
    have "stop \<le> i + step + int (length (range_up (i + step) stop step)) * step"
      by simp
    then show ?thesis by (simp add: eq algebra_simps)
  next
    case False
    then show ?thesis by (simp add: range_up_Nil)
  qed
qed

lemma range_up_map:
  "range_up a b s = map (\<lambda>k. a + int k * s) [0..<length (range_up a b s)]"
  by (rule nth_equalityI) (simp_all add: range_up_nth)

lemma range_up_member:
  assumes "0 < s"
  shows "a + int k * s < b \<longleftrightarrow> k < length (range_up a b s)"
proof
  assume lt: "a + int k * s < b"
  show "k < length (range_up a b s)"
  proof (rule ccontr)
    assume "\<not> k < length (range_up a b s)"
    then have "int (length (range_up a b s)) \<le> int k" by simp
    then have "int (length (range_up a b s)) * s \<le> int k * s"
      using assms by (simp add: mult_right_mono)
    with range_up_stop [OF assms, of b a] lt show False by linarith
  qed
qed (rule range_up_lt)

lemma range_up_length_ceiling:
  assumes "0 < s"
  shows "length (range_up a b s) = nat \<lceil>real_of_int (b - a) / real_of_int s\<rceil>"
proof (cases "length (range_up a b s)")
  case 0
  with range_up_stop [OF assms, of b a] have "b - a \<le> 0" by simp
  then have "real_of_int (b - a) / real_of_int s \<le> 0"
    using assms by (simp add: divide_nonpos_pos)
  then have "\<lceil>real_of_int (b - a) / real_of_int s\<rceil> \<le> 0"
    by (simp add: ceiling_le_zero)
  with 0 show ?thesis by simp
next
  case (Suc n)
  then have "n < length (range_up a b s)" by simp
  from range_up_lt [OF this] have "int n * s < b - a" by simp
  then have "real_of_int (int n * s) < real_of_int (b - a)" by (simp only: of_int_less_iff)
  then have lo: "real n < real_of_int (b - a) / real_of_int s"
    using assms by (simp add: pos_less_divide_eq)
  from range_up_stop [OF assms, of b a] Suc have "b - a \<le> int (Suc n) * s" by simp
  then have "real_of_int (b - a) \<le> real_of_int (int (Suc n) * s)" by (simp only: of_int_le_iff)
  then have hi: "real_of_int (b - a) / real_of_int s \<le> real (Suc n)"
    using assms by (simp add: pos_divide_le_eq)
  have "\<lceil>real_of_int (b - a) / real_of_int s\<rceil> = int (Suc n)"
    by (rule ceiling_unique) (use lo hi in simp_all)
  with Suc show ?thesis by simp
qed

lemma range_up_sorted: "sorted_wrt (<) (range_up a b s)"
proof (induction a b s rule: range_up.induct)
  case (1 i stop step)
  show ?case
  proof (cases "0 < step \<and> i < stop")
    case True
    then have eq: "range_up i stop step = i # range_up (i + step) stop step"
      by (simp add: range_up_Cons)
    have "\<forall>x\<in>set (range_up (i + step) stop step). i < x"
    proof
      fix x assume "x \<in> set (range_up (i + step) stop step)"
      then obtain k where "k < length (range_up (i + step) stop step)"
        and "x = range_up (i + step) stop step ! k"
        by (auto simp: in_set_conv_nth)
      then have "x = i + step + int k * step" by (simp add: range_up_nth)
      moreover have "0 \<le> int k * step" using True by simp
      ultimately show "i < x" using True by linarith
    qed
    with "1.IH" [OF True] show ?thesis by (simp add: eq)
  next
    case False
    then show ?thesis by (simp add: range_up_Nil)
  qed
qed

section \<open>The tiling loops\<close>

lemma foldl_append_cell:
  "foldl (\<lambda>polygons y. polygons @ [f y]) acc rows = acc @ map f rows"
  by (induction rows arbitrary: acc) simp_all

lemma foldl_append_col:
  "foldl (\<lambda>polygons x. polygons @ g x) acc cols = acc @ concat (map g cols)"
  by (induction cols arbitrary: acc) simp_all

lemma append_cells_concat:
  "append_cells s cols rows = concat (map (\<lambda>x. map (\<lambda>y. cell s x y) rows) cols)"
  by (simp add: append_cells_def foldl_append_cell foldl_append_col)

lemma grid_cols_pos:
  "0 < s \<Longrightarrow> grid_cols s (x0, y0, x1, y1) = Inr (range_up x0 x1 s)"
  by (simp add: grid_cols_def range_py_def)

lemma grid_rows_pos:
  "0 < s \<Longrightarrow> grid_rows s (x0, y0, x1, y1) = Inr (rev (range_up y0 y1 s))"
  by (simp add: grid_rows_def range_py_def)

lemma grid_polygons_pos:
  "0 < s \<Longrightarrow> grid_polygons s (x0, y0, x1, y1) =
     Inr (concat (map (\<lambda>x. map (\<lambda>y. cell s x y) (rev (range_up y0 y1 s))) (range_up x0 x1 s)))"
  by (simp add: grid_polygons_def grid_cols_pos grid_rows_pos append_cells_concat)

lemma range_up_elem:
  assumes "x \<in> set (range_up a b s)"
  obtains k where "k < length (range_up a b s)" and "x = a + int k * s"
  using assms by (auto simp: in_set_conv_nth range_up_nth)

lemma range_up_nonempty_pos: "x \<in> set (range_up a b s) \<Longrightarrow> 0 < s"
  by (rule ccontr) (simp add: range_up_Nil)

lemma range_up_bounds:
  assumes "x \<in> set (range_up a b s)"
  shows "a \<le> x \<and> x < b"
proof -
  from assms obtain k where k: "k < length (range_up a b s)" and x: "x = a + int k * s"
    by (rule range_up_elem)
  from assms have "0 < s" by (rule range_up_nonempty_pos)
  then have "0 \<le> int k * s" by simp
  with range_up_lt [OF k] x show ?thesis by simp
qed

lemma range_up_apart:
  assumes "x \<in> set (range_up a b s)" and "x' \<in> set (range_up a b s)" and "x < x'"
  shows "x + s \<le> x'"
proof -
  from assms(1) obtain k where x: "x = a + int k * s" by (rule range_up_elem)
  from assms(2) obtain k' where x': "x' = a + int k' * s" by (rule range_up_elem)
  from assms(1) have s: "0 < s" by (rule range_up_nonempty_pos)
  from assms(3) x x' have "int k * s < int k' * s" by simp
  with s have "int k < int k'" by (simp add: mult_less_cancel_right)
  then have "int k + 1 \<le> int k'" by simp
  then have "(int k + 1) * s \<le> int k' * s" using s by (simp only: mult_right_mono)
  then show ?thesis using x x' by (simp add: algebra_simps)
qed

lemma total_bounds_cell:
  "0 < s \<Longrightarrow> total_bounds \<lparr>geometry = [cell s x y], crs = None\<rparr> =
     Some (of_int x, of_int y - of_int s, of_int x + of_int s, of_int y)"
  by (simp add: total_bounds_def all_coords_def cell_def)

lemma overlap_area_cell:
  "0 < s \<Longrightarrow> overlap_area (cell s x y) (cell s x' y') \<longleftrightarrow>
     x < x' + s \<and> x' < x + s \<and> y - s < y' \<and> y' - s < y"
proof -
  assume s: "0 < s"
  have "overlap_area (cell s x y) (cell s x' y') \<longleftrightarrow>
     real_of_int x < real_of_int (x' + s) \<and> real_of_int x' < real_of_int (x + s) \<and>
     real_of_int (y - s) < real_of_int y' \<and> real_of_int (y' - s) < real_of_int y"
    using s by (simp add: overlap_area_def total_bounds_cell)
  then show ?thesis by (simp only: of_int_less_iff)
qed

lemma sorted_wrt_concat_map:
  "(\<forall>x\<in>set xs. sorted_wrt P (f x)) \<Longrightarrow>
   sorted_wrt (\<lambda>x x'. \<forall>c\<in>set (f x). \<forall>d\<in>set (f x'). P c d) xs \<Longrightarrow>
   sorted_wrt P (concat (map f xs))"
  by (induction xs) (auto simp: sorted_wrt_append)

lemma cells_no_overlap:
  assumes "0 < s"
  shows "sorted_wrt (\<lambda>c d. \<not> overlap_area c d)
     (concat (map (\<lambda>x. map (\<lambda>y. cell s x y) (rev (range_up y0 y1 s))) (range_up x0 x1 s)))"
proof (rule sorted_wrt_concat_map)
  let ?rows = "rev (range_up y0 y1 s)"
  have rows: "sorted_wrt (\<lambda>y y'. y' < y) ?rows"
    using range_up_sorted [of y0 y1 s] by (simp only: sorted_wrt_rev)
  have "sorted_wrt (\<lambda>y y'. \<not> overlap_area (cell s x y) (cell s x y')) ?rows" for x
  proof (rule sorted_wrt_mono_rel [OF _ rows])
    fix y y' assume "y \<in> set ?rows" "y' \<in> set ?rows" "y' < y"
    then have "y' + s \<le> y" using range_up_apart [of y' y0 y1 s y] by simp
    then show "\<not> overlap_area (cell s x y) (cell s x y')"
      using assms by (simp add: overlap_area_cell)
  qed
  then show "\<forall>x\<in>set (range_up x0 x1 s). sorted_wrt (\<lambda>c d. \<not> overlap_area c d) (map (\<lambda>y. cell s x y) ?rows)"
    by (simp add: sorted_wrt_map)
  show "sorted_wrt (\<lambda>x x'. \<forall>c\<in>set (map (\<lambda>y. cell s x y) ?rows).
           \<forall>d\<in>set (map (\<lambda>y. cell s x' y) ?rows). \<not> overlap_area c d) (range_up x0 x1 s)"
  proof (rule sorted_wrt_mono_rel [OF _ range_up_sorted])
    fix x x' assume "x \<in> set (range_up x0 x1 s)" "x' \<in> set (range_up x0 x1 s)" "x < x'"
    then have "x + s \<le> x'" by (rule range_up_apart)
    then show "\<forall>c\<in>set (map (\<lambda>y. cell s x y) ?rows).
           \<forall>d\<in>set (map (\<lambda>y. cell s x' y) ?rows). \<not> overlap_area c d"
      using assms by (auto simp: overlap_area_cell)
  qed
qed

lemma total_bounds_ordered:
  assumes "total_bounds m = Some (xmin, ymin, xmax, ymax)"
  shows "xmin \<le> xmax \<and> ymin \<le> ymax"
proof -
  let ?ps = "all_coords m"
  from assms have ne: "?ps \<noteq> []"
    by (auto simp: total_bounds_def Let_def split: if_splits)
  with assms have eq: "xmin = Min (set (map fst ?ps))" "xmax = Max (set (map fst ?ps))"
    "ymin = Min (set (map snd ?ps))" "ymax = Max (set (map snd ?ps))"
    by (simp_all add: total_bounds_def Let_def)
  from ne obtain p where p: "p \<in> set ?ps" by (cases ?ps) auto
  have "Min (set (map fst ?ps)) \<le> fst p" "fst p \<le> Max (set (map fst ?ps))"
    "Min (set (map snd ?ps)) \<le> snd p" "snd p \<le> Max (set (map snd ?ps))"
    using p by (simp_all add: Min_le Max_ge)
  then show ?thesis unfolding eq by linarith
qed

lemma metric_cells_bounds:
  assumes "to_crs g (Some metric_crs) = Inr m"
    and "total_bounds m = Some (xmin, ymin, xmax, ymax)"
  shows "metric_cells to_crs g = grid_polygons 64 (\<lfloor>xmin\<rfloor>, \<lfloor>ymin\<rfloor>, \<lfloor>xmax\<rfloor>, \<lfloor>ymax\<rfloor>)"
  using assms by (simp add: metric_cells_def int_bounds_def meters_on_side_of_acre_def)

lemma length_concat_const:
  "(\<forall>x\<in>set xs. length (f x) = n) \<Longrightarrow> length (concat (map f xs)) = length xs * n"
  by (induction xs) simp_all

section \<open>Claims\<close>

text \<open>
  C1. The integer bounds are the floors of the metric bounding box. For a positive cell
  side \<open>s\<close> the column origins are \<open>ix_min + k * s\<close> for exactly those \<open>k\<close> with
  \<open>ix_min + k * s < ix_max\<close>, in ascending order of \<open>k\<close>; the row origins are the same
  sequence over \<open>[iy_min, iy_max)\<close>, reversed, hence in descending order.
\<close>

theorem grid_origins:
  fixes s :: int and xmin ymin xmax ymax :: real
  assumes "0 < s"
  shows "int_bounds (Some (xmin, ymin, xmax, ymax)) = Inr (\<lfloor>xmin\<rfloor>, \<lfloor>ymin\<rfloor>, \<lfloor>xmax\<rfloor>, \<lfloor>ymax\<rfloor>) \<and>
    (\<exists>n. grid_cols s (\<lfloor>xmin\<rfloor>, \<lfloor>ymin\<rfloor>, \<lfloor>xmax\<rfloor>, \<lfloor>ymax\<rfloor>)
            = Inr (map (\<lambda>k. \<lfloor>xmin\<rfloor> + int k * s) [0..<n]) \<and>
         (\<forall>k. \<lfloor>xmin\<rfloor> + int k * s < \<lfloor>xmax\<rfloor> \<longleftrightarrow> k < n)) \<and>
    (\<exists>m. grid_rows s (\<lfloor>xmin\<rfloor>, \<lfloor>ymin\<rfloor>, \<lfloor>xmax\<rfloor>, \<lfloor>ymax\<rfloor>)
            = Inr (rev (map (\<lambda>k. \<lfloor>ymin\<rfloor> + int k * s) [0..<m])) \<and>
         (\<forall>k. \<lfloor>ymin\<rfloor> + int k * s < \<lfloor>ymax\<rfloor> \<longleftrightarrow> k < m) \<and>
         sorted_wrt (\<lambda>y y'. y' < y) (rev (map (\<lambda>k. \<lfloor>ymin\<rfloor> + int k * s) [0..<m])))"
proof (intro conjI)
  show "int_bounds (Some (xmin, ymin, xmax, ymax)) = Inr (\<lfloor>xmin\<rfloor>, \<lfloor>ymin\<rfloor>, \<lfloor>xmax\<rfloor>, \<lfloor>ymax\<rfloor>)"
    by (simp add: int_bounds_def)
next
  let ?n = "length (range_up \<lfloor>xmin\<rfloor> \<lfloor>xmax\<rfloor> s)"
  have "grid_cols s (\<lfloor>xmin\<rfloor>, \<lfloor>ymin\<rfloor>, \<lfloor>xmax\<rfloor>, \<lfloor>ymax\<rfloor>)
          = Inr (map (\<lambda>k. \<lfloor>xmin\<rfloor> + int k * s) [0..<?n])"
    using assms range_up_map [of "\<lfloor>xmin\<rfloor>" "\<lfloor>xmax\<rfloor>" s] by (simp add: grid_cols_pos)
  moreover have "\<forall>k. \<lfloor>xmin\<rfloor> + int k * s < \<lfloor>xmax\<rfloor> \<longleftrightarrow> k < ?n"
    using range_up_member [OF assms] by blast
  ultimately show "\<exists>n. grid_cols s (\<lfloor>xmin\<rfloor>, \<lfloor>ymin\<rfloor>, \<lfloor>xmax\<rfloor>, \<lfloor>ymax\<rfloor>)
            = Inr (map (\<lambda>k. \<lfloor>xmin\<rfloor> + int k * s) [0..<n]) \<and>
         (\<forall>k. \<lfloor>xmin\<rfloor> + int k * s < \<lfloor>xmax\<rfloor> \<longleftrightarrow> k < n)"
    by blast
next
  let ?m = "length (range_up \<lfloor>ymin\<rfloor> \<lfloor>ymax\<rfloor> s)"
  let ?asc = "map (\<lambda>k. \<lfloor>ymin\<rfloor> + int k * s) [0..<?m]"
  have asc: "range_up \<lfloor>ymin\<rfloor> \<lfloor>ymax\<rfloor> s = ?asc"
    by (rule range_up_map)
  have "grid_rows s (\<lfloor>xmin\<rfloor>, \<lfloor>ymin\<rfloor>, \<lfloor>xmax\<rfloor>, \<lfloor>ymax\<rfloor>) = Inr (rev ?asc)"
    using assms asc by (simp add: grid_rows_pos)
  moreover have "\<forall>k. \<lfloor>ymin\<rfloor> + int k * s < \<lfloor>ymax\<rfloor> \<longleftrightarrow> k < ?m"
    using range_up_member [OF assms] by blast
  moreover have "sorted_wrt (\<lambda>y y'. y' < y) (rev ?asc)"
    using range_up_sorted [of "\<lfloor>ymin\<rfloor>" "\<lfloor>ymax\<rfloor>" s] asc
    by (simp only: sorted_wrt_rev)
  ultimately show "\<exists>m. grid_rows s (\<lfloor>xmin\<rfloor>, \<lfloor>ymin\<rfloor>, \<lfloor>xmax\<rfloor>, \<lfloor>ymax\<rfloor>)
            = Inr (rev (map (\<lambda>k. \<lfloor>ymin\<rfloor> + int k * s) [0..<m])) \<and>
         (\<forall>k. \<lfloor>ymin\<rfloor> + int k * s < \<lfloor>ymax\<rfloor> \<longleftrightarrow> k < m) \<and>
         sorted_wrt (\<lambda>y y'. y' < y) (rev (map (\<lambda>k. \<lfloor>ymin\<rfloor> + int k * s) [0..<m]))"
    by blast
qed

theorem grid_origins_witness:
  "(0::int) < 64 \<and>
   int_bounds (Some (- 1 / 2, 20007 / 10, 1279 / 10, 21282 / 10)) = Inr (- 1, 2000, 127, 2128) \<and>
   grid_cols 64 (- 1, 2000, 127, 2128) = Inr [- 1, 63] \<and>
   grid_rows 64 (- 1, 2000, 127, 2128) = Inr [2064, 2000]"
proof -
  have pos: "(0::int) < 64" by simp
  have fl: "\<lfloor>- 1 / 2 :: real\<rfloor> = - 1" "\<lfloor>20007 / 10 :: real\<rfloor> = 2000"
    "\<lfloor>1279 / 10 :: real\<rfloor> = 127" "\<lfloor>21282 / 10 :: real\<rfloor> = 2128"
    by simp_all
  from grid_origins [OF pos, of "- 1 / 2" "20007 / 10" "1279 / 10" "21282 / 10"]
  obtain n m where
    b: "int_bounds (Some (- 1 / 2, 20007 / 10, 1279 / 10, 21282 / 10)) = Inr (- 1, 2000, 127, 2128)" and
    c: "grid_cols 64 (- 1, 2000, 127, 2128) = Inr (map (\<lambda>k. - 1 + int k * 64) [0..<n])" and
    n: "\<forall>k. - 1 + int k * 64 < (127::int) \<longleftrightarrow> k < n" and
    r: "grid_rows 64 (- 1, 2000, 127, 2128) = Inr (rev (map (\<lambda>k. 2000 + int k * 64) [0..<m]))" and
    m: "\<forall>k. 2000 + int k * 64 < (2128::int) \<longleftrightarrow> k < m"
    unfolding fl by blast
  from n [rule_format, of 1] n [rule_format, of 2] have "n = 2" by simp
  moreover from m [rule_format, of 1] m [rule_format, of 2] have "m = 2" by simp
  moreover have "[0..<2] = [0, Suc 0]" by (simp add: upt_rec)
  ultimately show ?thesis using pos b c r by simp
qed

text \<open>
  C2. For a positive cell side \<open>s\<close>, the emitted cells are, for each column origin \<open>x\<close>
  in ascending order (outer loop) and each row origin \<open>y\<close> in descending order (inner
  loop), the square with corners \<open>(x, y)\<close>, \<open>(x + s, y)\<close>, \<open>(x + s, y - s)\<close>,
  \<open>(x, y - s)\<close>.
\<close>

theorem grid_cells_layout:
  assumes "0 < s" and "grid_cols s b = Inr cols" and "grid_rows s b = Inr rows"
  shows "grid_polygons s b =
           Inr (concat (map (\<lambda>x. map (\<lambda>y.
                  Polygon [(of_int x, of_int y),
                           (of_int x + of_int s, of_int y),
                           (of_int x + of_int s, of_int y - of_int s),
                           (of_int x, of_int y - of_int s)]) rows) cols)) \<and>
         sorted_wrt (\<lambda>x x'. x < x') cols \<and>
         sorted_wrt (\<lambda>y y'. y' < y) rows"
proof -
  obtain x0 y0 x1 y1 where b: "b = (x0, y0, x1, y1)" by (cases b) auto
  from assms b have cols: "cols = range_up x0 x1 s" and rows: "rows = rev (range_up y0 y1 s)"
    by (simp_all add: grid_cols_pos grid_rows_pos)
  have "grid_polygons s b = Inr (concat (map (\<lambda>x. map (\<lambda>y. cell s x y) rows) cols))"
    using assms by (simp add: grid_polygons_def append_cells_concat)
  moreover have "sorted_wrt (\<lambda>x x'. x < x') cols"
    unfolding cols by (rule range_up_sorted)
  moreover have "sorted_wrt (\<lambda>y y'. y' < y) rows"
    unfolding rows using range_up_sorted [of y0 y1 s] by (simp only: sorted_wrt_rev)
  ultimately show ?thesis by (simp add: cell_def)
qed

theorem grid_cells_layout_witness:
  "(0::int) < 64 \<and>
   grid_cols 64 (1000, 2000, 1128, 2128) = Inr [1000, 1064] \<and>
   grid_rows 64 (1000, 2000, 1128, 2128) = Inr [2064, 2000] \<and>
   grid_polygons 64 (1000, 2000, 1128, 2128) =
     Inr [Polygon [(1000, 2064), (1064, 2064), (1064, 2000), (1000, 2000)],
          Polygon [(1000, 2000), (1064, 2000), (1064, 1936), (1000, 1936)],
          Polygon [(1064, 2064), (1128, 2064), (1128, 2000), (1064, 2000)],
          Polygon [(1064, 2000), (1128, 2000), (1128, 1936), (1064, 1936)]]"
proof -
  have pos: "(0::int) < 64" by simp
  have c: "grid_cols 64 (1000, 2000, 1128, 2128) = Inr [1000, 1064]"
    by (simp add: grid_cols_pos range_up.simps)
  have r: "grid_rows 64 (1000, 2000, 1128, 2128) = Inr [2064, 2000]"
    by (simp add: grid_rows_pos range_up.simps)
  from grid_cells_layout [OF pos c r] pos c r show ?thesis by simp
qed

lemma total_bounds_reference_box:
  "total_bounds (reference_box\<lparr>crs := c\<rparr>) = Some (1000, 2000, 1128, 2128)"
  by (simp add: total_bounds_def all_coords_def reference_box_def)

text \<open>
  C3. When the metric bounding box of the reference is (1000, 2000, 1128, 2128), the
  column origins are 1000, 1064, the row origins are 2064, 2000 in that order, and
  exactly four cells are emitted, column by column, each column top row first.
\<close>

theorem scenario_four_cells:
  assumes "to_crs g (Some metric_crs) = Inr m"
    and "total_bounds m = Some (1000, 2000, 1128, 2128)"
  shows "grid_cols meters_on_side_of_acre (1000, 2000, 1128, 2128) = Inr [1000, 1064] \<and>
         grid_rows meters_on_side_of_acre (1000, 2000, 1128, 2128) = Inr [2064, 2000] \<and>
         metric_cells to_crs g =
           Inr [cell 64 1000 2064, cell 64 1000 2000, cell 64 1064 2064, cell 64 1064 2000]"
proof -
  have "metric_cells to_crs g = grid_polygons 64 (1000, 2000, 1128, 2128)"
    using metric_cells_bounds [of to_crs g m 1000 2000 1128 2128] assms by simp
  then show ?thesis
    by (simp add: meters_on_side_of_acre_def grid_polygons_pos grid_cols_pos grid_rows_pos
        range_up.simps)
qed

theorem scenario_four_cells_witness:
  "retag reference_box (Some metric_crs) = Inr (reference_box\<lparr>crs := Some metric_crs\<rparr>) \<and>
   total_bounds (reference_box\<lparr>crs := Some metric_crs\<rparr>) = Some (1000, 2000, 1128, 2128) \<and>
   metric_cells retag reference_box =
     Inr [cell 64 1000 2064, cell 64 1000 2000, cell 64 1064 2064, cell 64 1064 2000] \<and>
   length [cell 64 1000 2064, cell 64 1000 2000, cell 64 1064 2064, cell 64 1064 2000] = 4"
proof -
  have a: "retag reference_box (Some metric_crs)
             = (Inr (reference_box\<lparr>crs := Some metric_crs\<rparr>) :: error + gdf)"
    by (simp add: retag_def)
  have b: "total_bounds (reference_box\<lparr>crs := Some metric_crs\<rparr>) = Some (1000, 2000, 1128, 2128)"
    by (rule total_bounds_reference_box)
  from scenario_four_cells [of retag reference_box
      "reference_box\<lparr>crs := Some metric_crs\<rparr>"] a b
  show ?thesis by simp
qed

lemma total_bounds_reference_strip:
  "total_bounds (reference_strip\<lparr>crs := c\<rparr>) = Some (0, 0, 100, 64)"
  by (simp add: total_bounds_def all_coords_def reference_strip_def)

lemma range_up_in_set:
  assumes "0 < s" and "a + int k * s < b"
  shows "a + int k * s \<in> set (range_up a b s)"
proof -
  from assms have "k < length (range_up a b s)" by (simp add: range_up_member)
  then have "range_up a b s ! k \<in> set (range_up a b s)" by (rule nth_mem)
  with \<open>k < length (range_up a b s)\<close> show ?thesis by (simp add: range_up_nth)
qed

text \<open>
  C4, as amended. For the integer bounds of a reference with coordinates and a positive
  cell side \<open>s\<close>, the number of emitted cells is
  \<open>ceil ((ix_max - ix_min) / s) * ceil ((iy_max - iy_min) / s)\<close>, and every origin
  \<open>(ix_min + k * s, iy_min + l * s)\<close> below the high edges has its whole cell emitted,
  also when the cell reaches past \<open>ix_max\<close>: no cell is omitted and none is clipped.
\<close>

theorem grid_cell_count:
  assumes "total_bounds m = Some (xmin, ymin, xmax, ymax)" and "0 < s"
  shows "\<exists>cells. grid_polygons s (\<lfloor>xmin\<rfloor>, \<lfloor>ymin\<rfloor>, \<lfloor>xmax\<rfloor>, \<lfloor>ymax\<rfloor>) = Inr cells \<and>
     int (length cells) =
       \<lceil>real_of_int (\<lfloor>xmax\<rfloor> - \<lfloor>xmin\<rfloor>) / real_of_int s\<rceil> *
       \<lceil>real_of_int (\<lfloor>ymax\<rfloor> - \<lfloor>ymin\<rfloor>) / real_of_int s\<rceil> \<and>
     (\<forall>k l. \<lfloor>xmin\<rfloor> + int k * s < \<lfloor>xmax\<rfloor> \<and> \<lfloor>ymin\<rfloor> + int l * s < \<lfloor>ymax\<rfloor> \<longrightarrow>
        cell s (\<lfloor>xmin\<rfloor> + int k * s) (\<lfloor>ymin\<rfloor> + int l * s) \<in> set cells)"
proof -
  let ?cols = "range_up \<lfloor>xmin\<rfloor> \<lfloor>xmax\<rfloor> s" and ?rows = "rev (range_up \<lfloor>ymin\<rfloor> \<lfloor>ymax\<rfloor> s)"
  let ?cells = "concat (map (\<lambda>x. map (\<lambda>y. cell s x y) ?rows) ?cols)"
  have eq: "grid_polygons s (\<lfloor>xmin\<rfloor>, \<lfloor>ymin\<rfloor>, \<lfloor>xmax\<rfloor>, \<lfloor>ymax\<rfloor>) = Inr ?cells"
    using assms(2) by (rule grid_polygons_pos)
  from total_bounds_ordered [OF assms(1)] have "\<lfloor>xmin\<rfloor> \<le> \<lfloor>xmax\<rfloor>" "\<lfloor>ymin\<rfloor> \<le> \<lfloor>ymax\<rfloor>"
    by (simp_all add: floor_mono)
  then have "0 \<le> real_of_int (\<lfloor>xmax\<rfloor> - \<lfloor>xmin\<rfloor>) / real_of_int s"
    "0 \<le> real_of_int (\<lfloor>ymax\<rfloor> - \<lfloor>ymin\<rfloor>) / real_of_int s"
    using assms(2) by simp_all
  then have nn: "0 \<le> \<lceil>real_of_int (\<lfloor>xmax\<rfloor> - \<lfloor>xmin\<rfloor>) / real_of_int s\<rceil>"
    "0 \<le> \<lceil>real_of_int (\<lfloor>ymax\<rfloor> - \<lfloor>ymin\<rfloor>) / real_of_int s\<rceil>"
    by (simp_all only: zero_le_ceiling)
  have "length ?cells = length ?cols * length ?rows"
    by (rule length_concat_const) simp
  then have "int (length ?cells) = int (length ?cols) * int (length (range_up \<lfloor>ymin\<rfloor> \<lfloor>ymax\<rfloor> s))"
    by simp
  also have "\<dots> = \<lceil>real_of_int (\<lfloor>xmax\<rfloor> - \<lfloor>xmin\<rfloor>) / real_of_int s\<rceil> *
       \<lceil>real_of_int (\<lfloor>ymax\<rfloor> - \<lfloor>ymin\<rfloor>) / real_of_int s\<rceil>"
    using nn by (simp only: range_up_length_ceiling [OF assms(2)] int_nat_eq if_True)
  finally have count: "int (length ?cells) =
       \<lceil>real_of_int (\<lfloor>xmax\<rfloor> - \<lfloor>xmin\<rfloor>) / real_of_int s\<rceil> *
       \<lceil>real_of_int (\<lfloor>ymax\<rfloor> - \<lfloor>ymin\<rfloor>) / real_of_int s\<rceil>" .
  have whole: "cell s (\<lfloor>xmin\<rfloor> + int k * s) (\<lfloor>ymin\<rfloor> + int l * s) \<in> set ?cells"
    if "\<lfloor>xmin\<rfloor> + int k * s < \<lfloor>xmax\<rfloor>" and "\<lfloor>ymin\<rfloor> + int l * s < \<lfloor>ymax\<rfloor>" for k l
    using range_up_in_set [OF assms(2) that(1)] range_up_in_set [OF assms(2) that(2)]
    by auto
  from eq count whole show ?thesis by blast
qed

theorem grid_cell_count_witness:
  "total_bounds (reference_strip\<lparr>crs := Some metric_crs\<rparr>) = Some (0, 0, 100, 64) \<and> (0::int) < 64 \<and>
   (\<exists>cells. grid_polygons 64 (0, 0, 100, 64) = Inr cells \<and> int (length cells) = 2 * 1 \<and>
      cell 64 64 0 \<in> set cells)"
proof -
  have b: "total_bounds (reference_strip\<lparr>crs := Some metric_crs\<rparr>) = Some (0, 0, 100, 64)"
    by (rule total_bounds_reference_strip)
  have pos: "(0::int) < 64" by simp
  from grid_cell_count [OF b pos] obtain cells where
    eq: "grid_polygons 64 (0, 0, 100, 64) = Inr cells" and
    n: "int (length cells) = \<lceil>real_of_int (100 - 0) / real_of_int 64\<rceil> * \<lceil>real_of_int (64 - 0) / real_of_int 64\<rceil>" and
    w: "\<forall>k l. 0 + int k * 64 < (100::int) \<and> 0 + int l * 64 < (64::int) \<longrightarrow>
        cell 64 (0 + int k * 64) (0 + int l * 64) \<in> set cells"
    by auto
  have c1: "\<lceil>real_of_int (100 - 0) / real_of_int 64\<rceil> = 2" by simp
  have c2: "\<lceil>real_of_int (64 - 0) / real_of_int 64\<rceil> = 1" by simp
  from w [rule_format, of 1 0] have "cell 64 64 0 \<in> set cells" by simp
  with eq n b pos show ?thesis unfolding c1 c2 by blast
qed

text \<open>
  The claim as stated has the partial cells at the high edge omitted. For the box
  (0, 0, 100, 64) the column with origin 64 reaches to 128, past the high edge 100, and
  its cell is emitted.
\<close>

theorem high_edge_cell_emitted:
  "total_bounds (reference_strip\<lparr>crs := Some metric_crs\<rparr>) = Some (0, 0, 100, 64) \<and>
   metric_cells retag reference_strip =
     Inr [Polygon [(0, 0), (64, 0), (64, - 64), (0, - 64)],
          Polygon [(64, 0), (128, 0), (128, - 64), (64, - 64)]] \<and>
   (64::int) < 100 \<and> (100::int) < 64 + 64"
proof -
  have "metric_cells retag reference_strip = grid_polygons 64 (0, 0, 100, 64)"
    using metric_cells_bounds [of retag reference_strip "reference_strip\<lparr>crs := Some metric_crs\<rparr>" 0 0 100 64]
    by (simp add: retag_def total_bounds_reference_strip)
  then show ?thesis
    by (simp add: total_bounds_reference_strip grid_polygons_pos range_up.simps cell_def)
qed

text \<open>
  C5, as amended. For a positive cell side \<open>s\<close>, every corner of every emitted cell
  lies within \<open>[floor xmin, floor xmax + s) \<times> [floor ymin - s, floor ymax)\<close>: the origin
  of a cell lies within \<open>[floor xmin, floor xmax) \<times> [floor ymin, floor ymax)\<close> and the
  cell extends by \<open>s\<close> to the right and downward. No two emitted cells overlap in area.
\<close>

theorem grid_cells_region:
  assumes "0 < s"
    and "grid_polygons s (\<lfloor>xmin\<rfloor>, \<lfloor>ymin\<rfloor>, \<lfloor>xmax\<rfloor>, \<lfloor>ymax\<rfloor>) = Inr cells"
  shows "(\<forall>c\<in>set cells. \<exists>x y. c = cell s x y \<and>
            \<lfloor>xmin\<rfloor> \<le> x \<and> x < \<lfloor>xmax\<rfloor> \<and> \<lfloor>ymin\<rfloor> \<le> y \<and> y < \<lfloor>ymax\<rfloor>) \<and>
         (\<forall>c\<in>set cells. \<forall>(px, py)\<in>set (coords c).
            of_int \<lfloor>xmin\<rfloor> \<le> px \<and> px < of_int (\<lfloor>xmax\<rfloor> + s) \<and>
            of_int (\<lfloor>ymin\<rfloor> - s) \<le> py \<and> py < of_int \<lfloor>ymax\<rfloor>) \<and>
         sorted_wrt (\<lambda>c d. \<not> overlap_area c d) cells"
proof (intro conjI)
  let ?cols = "range_up \<lfloor>xmin\<rfloor> \<lfloor>xmax\<rfloor> s" and ?rows = "rev (range_up \<lfloor>ymin\<rfloor> \<lfloor>ymax\<rfloor> s)"
  from assms have cells: "cells = concat (map (\<lambda>x. map (\<lambda>y. cell s x y) ?rows) ?cols)"
    by (simp add: grid_polygons_pos)
  show "sorted_wrt (\<lambda>c d. \<not> overlap_area c d) cells"
    unfolding cells using assms(1) by (rule cells_no_overlap)
  have origin: "\<exists>x y. c = cell s x y \<and>
      \<lfloor>xmin\<rfloor> \<le> x \<and> x < \<lfloor>xmax\<rfloor> \<and> \<lfloor>ymin\<rfloor> \<le> y \<and> y < \<lfloor>ymax\<rfloor>"
    if "c \<in> set cells" for c
  proof -
    from that obtain x y where x: "x \<in> set ?cols"
      and y: "y \<in> set (range_up \<lfloor>ymin\<rfloor> \<lfloor>ymax\<rfloor> s)" and c: "c = cell s x y"
      unfolding cells by auto
    from range_up_bounds [OF x] range_up_bounds [OF y] c show ?thesis by blast
  qed
  then show "\<forall>c\<in>set cells. \<exists>x y. c = cell s x y \<and>
            \<lfloor>xmin\<rfloor> \<le> x \<and> x < \<lfloor>xmax\<rfloor> \<and> \<lfloor>ymin\<rfloor> \<le> y \<and> y < \<lfloor>ymax\<rfloor>"
    by blast
  show "\<forall>c\<in>set cells. \<forall>(px, py)\<in>set (coords c).
            of_int \<lfloor>xmin\<rfloor> \<le> px \<and> px < of_int (\<lfloor>xmax\<rfloor> + s) \<and>
            of_int (\<lfloor>ymin\<rfloor> - s) \<le> py \<and> py < of_int \<lfloor>ymax\<rfloor>"
  proof
    fix c assume "c \<in> set cells"
    from origin [OF this] obtain x y where c: "c = cell s x y"
      and "\<lfloor>xmin\<rfloor> \<le> x" "x < \<lfloor>xmax\<rfloor>" "\<lfloor>ymin\<rfloor> \<le> y" "y < \<lfloor>ymax\<rfloor>"
      by blast
    with assms(1)
    have "real_of_int \<lfloor>xmin\<rfloor> \<le> real_of_int x" "real_of_int x < real_of_int (\<lfloor>xmax\<rfloor> + s)"
      "real_of_int \<lfloor>xmin\<rfloor> \<le> real_of_int (x + s)" "real_of_int (x + s) < real_of_int (\<lfloor>xmax\<rfloor> + s)"
      "real_of_int (\<lfloor>ymin\<rfloor> - s) \<le> real_of_int y" "real_of_int y < real_of_int \<lfloor>ymax\<rfloor>"
      "real_of_int (\<lfloor>ymin\<rfloor> - s) \<le> real_of_int (y - s)" "real_of_int (y - s) < real_of_int \<lfloor>ymax\<rfloor>"
      by (simp_all only: of_int_le_iff of_int_less_iff)
    then show "\<forall>(px, py)\<in>set (coords c).
            of_int \<lfloor>xmin\<rfloor> \<le> px \<and> px < of_int (\<lfloor>xmax\<rfloor> + s) \<and>
            of_int (\<lfloor>ymin\<rfloor> - s) \<le> py \<and> py < of_int \<lfloor>ymax\<rfloor>"
      unfolding c cell_def by simp
  qed
qed

theorem grid_cells_region_witness:
  "(0::int) < 64 \<and>
   grid_polygons 64 (\<lfloor>1000\<rfloor>, \<lfloor>2000\<rfloor>, \<lfloor>1128\<rfloor>, \<lfloor>2128\<rfloor>) =
     Inr [cell 64 1000 2064, cell 64 1000 2000, cell 64 1064 2064, cell 64 1064 2000] \<and>
   list_all (\<lambda>c. list_all (\<lambda>(px, py). 1000 \<le> px \<and> px < 1128 + 64 \<and> 2000 - 64 \<le> py \<and> py < 2128)
               (coords c))
     [cell 64 1000 2064, cell 64 1000 2000, cell 64 1064 2064, cell 64 1064 2000] \<and>
   sorted_wrt (\<lambda>c d. \<not> overlap_area c d)
     [cell 64 1000 2064, cell 64 1000 2000, cell 64 1064 2064, cell 64 1064 2000]"
proof -
  have pos: "(0::int) < 64" by simp
  have g: "grid_polygons 64 (\<lfloor>1000 :: real\<rfloor>, \<lfloor>2000 :: real\<rfloor>, \<lfloor>1128 :: real\<rfloor>, \<lfloor>2128 :: real\<rfloor>) =
     Inr [cell 64 1000 2064, cell 64 1000 2000, cell 64 1064 2064, cell 64 1064 2000]"
    by (simp add: grid_polygons_pos range_up.simps)
  from grid_cells_region [OF pos g] pos g show ?thesis by (simp add: list_all_iff)
qed

text \<open>
  The claim as stated keeps every cell within
  \<open>[floor xmin, floor xmax) \<times> (floor ymin, floor ymax]\<close>. For the box
  (1000, 2000, 1128, 2128) the cell with origin (1064, 2000) has the corner (1128, 1936).
\<close>

theorem cell_outside_region:
  "total_bounds (reference_box\<lparr>crs := Some metric_crs\<rparr>) = Some (1000, 2000, 1128, 2128) \<and>
   metric_cells retag reference_box =
     Inr [Polygon [(1000, 2064), (1064, 2064), (1064, 2000), (1000, 2000)],
          Polygon [(1000, 2000), (1064, 2000), (1064, 1936), (1000, 1936)],
          Polygon [(1064, 2064), (1128, 2064), (1128, 2000), (1064, 2000)],
          Polygon [(1064, 2000), (1128, 2000), (1128, 1936), (1064, 1936)]] \<and>
   \<not> within_region (Polygon [(1064, 2000), (1128, 2000), (1128, 1936), (1064, 1936)])
       (\<lfloor>1000\<rfloor>, \<lfloor>2000\<rfloor>, \<lfloor>1128\<rfloor>, \<lfloor>2128\<rfloor>)"
proof -
  have "metric_cells retag reference_box = grid_polygons 64 (1000, 2000, 1128, 2128)"
    using metric_cells_bounds [of retag reference_box "reference_box\<lparr>crs := Some metric_crs\<rparr>" 1000 2000 1128 2128]
    by (simp add: retag_def total_bounds_reference_box)
  then show ?thesis
    by (simp add: total_bounds_reference_box grid_polygons_pos range_up.simps cell_def
        within_region_def)
qed





lemma append_layers_fails:
  "layer \<in> set layers \<Longrightarrow> read_layer layer = Inl e \<Longrightarrow>
   \<exists>e'. append_layers read_layer join g layers = Inl e'"
proof (induction layers arbitrary: g)
  case Nil
  then show ?case by simp
next
  case (Cons l ls)
  show ?case
  proof (cases "read_layer l")
    case (Inl e0)
    then show ?thesis by simp
  next
    case (Inr s)
    with Cons.prems have "layer \<in> set ls" by auto
    from Cons.IH [OF this Cons.prems(2)] Inr show ?thesis by simp
  qed
qed

lemma append_layers_geometry:
  "map read_layer layers = map Inr parts \<Longrightarrow>
   \<exists>g'. append_layers read_layer join g layers = Inr g' \<and>
        geometry g' = geometry g @ concat (map geometry parts)"
proof (induction layers arbitrary: g parts)
  case Nil
  then show ?case by simp
next
  case (Cons l ls)
  from Cons.prems obtain p ps where parts: "parts = p # ps" and p: "read_layer l = Inr p"
    and ps: "map read_layer ls = map Inr ps"
    by (cases parts) auto
  from Cons.IH [OF ps, of "append_gdf join g p"] p parts show ?case
    by (simp add: append_gdf_def)
qed

text \<open>
  C7, as amended. \<open>get_geo_dataframe\<close> raises, returning no dataframe, when listing the
  layers raises (a source that cannot be opened) and when reading some layer raises. For
  a source with zero layers it raises nothing and returns the dataframe without rows.
\<close>

theorem get_geo_dataframe_errors:
  "(listlayers kml_file = Inl e \<longrightarrow>
      get_geo_dataframe listlayers read_file join kml_file = Inl e) \<and>
   (listlayers kml_file = Inr layers \<and> layer \<in> set layers \<and> read_file kml_file layer = Inl e \<longrightarrow>
      (\<exists>e'. get_geo_dataframe listlayers read_file join kml_file = Inl e')) \<and>
   (listlayers kml_file = Inr [] \<longrightarrow>
      get_geo_dataframe listlayers read_file join kml_file = Inr \<lparr>geometry = [], crs = None\<rparr>)"
  by (auto simp: get_geo_dataframe_def dest: append_layers_fails)

theorem get_geo_dataframe_errors_witness:
  "unreadable ''property_lines.kml'' = Inl (LibraryError ''DriverError'') \<and>
   get_geo_dataframe unreadable read_sample first_crs ''property_lines.kml''
     = Inl (LibraryError ''DriverError'') \<and>
   two_layers ''property_lines.kml'' = Inr [''parcels'', ''fences''] \<and>
   ''fences'' \<in> set [''parcels'', ''fences''] \<and>
   read_broken ''property_lines.kml'' ''fences'' = Inl (LibraryError ''ValueError'') \<and>
   (\<exists>e'. get_geo_dataframe two_layers read_broken first_crs ''property_lines.kml'' = Inl e') \<and>
   no_layers ''property_lines.kml'' = Inr [] \<and>
   get_geo_dataframe no_layers read_sample first_crs ''property_lines.kml''
     = Inr \<lparr>geometry = [], crs = None\<rparr>"
proof -
  have a: "unreadable ''property_lines.kml'' = Inl (LibraryError ''DriverError'')"
    by (simp add: unreadable_def)
  have b: "two_layers ''property_lines.kml'' = Inr [''parcels'', ''fences'']"
    by (simp add: two_layers_def)
  have c: "''fences'' \<in> set [''parcels'', ''fences'']" by simp
  have d: "read_broken ''property_lines.kml'' ''fences'' = Inl (LibraryError ''ValueError'')"
    by (simp add: read_broken_def)
  have e: "no_layers ''property_lines.kml'' = Inr []"
    by (simp add: no_layers_def)
  from get_geo_dataframe_errors [of unreadable "''property_lines.kml''" "LibraryError ''DriverError''"
      read_sample first_crs] a
  have 1: "get_geo_dataframe unreadable read_sample first_crs ''property_lines.kml''
     = Inl (LibraryError ''DriverError'')" by blast
  from get_geo_dataframe_errors [of two_layers "''property_lines.kml''" "LibraryError ''ValueError''"
      read_broken first_crs "[''parcels'', ''fences'']" "''fences''"] b c d
  have 2: "\<exists>e'. get_geo_dataframe two_layers read_broken first_crs ''property_lines.kml'' = Inl e'"
    by blast
  from get_geo_dataframe_errors [of no_layers "''property_lines.kml''" _ read_sample first_crs] e
  have 3: "get_geo_dataframe no_layers read_sample first_crs ''property_lines.kml''
     = Inr \<lparr>geometry = [], crs = None\<rparr>" by blast
  from a b c d e 1 2 3 show ?thesis by blast
qed

text \<open>
  The claim as stated has an error for a source with zero layers; the loop body never
  runs and the initial dataframe is returned.
\<close>

theorem zero_layers_no_error:
  "no_layers ''property_lines.kml'' = Inr [] \<and>
   get_geo_dataframe no_layers read_sample first_crs ''property_lines.kml''
     = Inr \<lparr>geometry = [], crs = None\<rparr>"
  by (simp add: get_geo_dataframe_def no_layers_def)

text \<open>
  C8. When the layer listing and every layer read succeed, the geometries of the returned
  dataframe are those of the layers, appended in listing order and in the order each
  layer was parsed, nothing dropped and nothing merged; their number is the sum of the
  numbers of geometries of the layers.
\<close>

theorem get_geo_dataframe_geometry:
  assumes "listlayers kml_file = Inr layers"
    and "map (read_file kml_file) layers = map Inr parts"
  shows "\<exists>g. get_geo_dataframe listlayers read_file join kml_file = Inr g \<and>
           geometry g = concat (map geometry parts) \<and>
           length (geometry g) = sum_list (map (\<lambda>s. length (geometry s)) parts)"
proof -
  from append_layers_geometry [OF assms(2), of join "\<lparr>geometry = [], crs = None\<rparr>"]
  obtain g where g: "append_layers (read_file kml_file) join \<lparr>geometry = [], crs = None\<rparr> layers = Inr g"
    and geo: "geometry g = concat (map geometry parts)"
    by auto
  have "length (concat (map geometry parts)) = sum_list (map (\<lambda>s. length (geometry s)) parts)"
    by (simp add: length_concat comp_def)
  with g geo assms(1) show ?thesis by (simp add: get_geo_dataframe_def)
qed

theorem get_geo_dataframe_geometry_witness:
  "two_layers ''property_lines.kml'' = Inr [''parcels'', ''fences''] \<and>
   map (read_sample ''property_lines.kml'') [''parcels'', ''fences''] =
     map Inr [\<lparr>geometry = [Point (1, 2), Point (1, 2)], crs = Some ''epsg:4326''\<rparr>,
              \<lparr>geometry = [Polygon [(0, 0), (1, 0), (0, 0)]], crs = Some ''epsg:4326''\<rparr>] \<and>
   (\<exists>g. get_geo_dataframe two_layers read_sample first_crs ''property_lines.kml'' = Inr g \<and>
        geometry g = [Point (1, 2), Point (1, 2), Polygon [(0, 0), (1, 0), (0, 0)]] \<and>
        length (geometry g) = 3)"
proof -
  have a: "two_layers ''property_lines.kml'' = Inr [''parcels'', ''fences'']"
    by (simp add: two_layers_def)
  have b: "map (read_sample ''property_lines.kml'') [''parcels'', ''fences''] =
     map Inr [\<lparr>geometry = [Point (1, 2), Point (1, 2)], crs = Some ''epsg:4326''\<rparr>,
              \<lparr>geometry = [Polygon [(0, 0), (1, 0), (0, 0)]], crs = Some ''epsg:4326''\<rparr>]"
    by (simp add: read_sample_def)
  from get_geo_dataframe_geometry [of two_layers "''property_lines.kml''" "[''parcels'', ''fences'']"
      read_sample _ first_crs, OF a b] a b
  show ?thesis by (simp add: numeral_3_eq_3)
qed

text \<open>
  C9. Run on a store of dataframes, \<open>generate_grid\<close> leaves every dataframe that was
  in the store before the call as it was, the reference among them with its geometries
  and its CRS; the grid it returns is at an address that was not in the store before,
  and holds the value \<open>generate_grid\<close> computes from the reference.
\<close>

theorem generate_grid_store_frame:
  assumes "r < length h" and "generate_grid_store to_crs h r = (res, h')"
  shows "take (length h) h' = h \<and> h' ! r = h ! r \<and>
         (case res of
            Inl e \<Rightarrow> generate_grid to_crs (h ! r) = Inl e
          | Inr a \<Rightarrow> length h \<le> a \<and> a < length h' \<and>
                     generate_grid to_crs (h ! r) = Inr (h' ! a))"
proof (cases "to_crs (h ! r) (Some metric_crs)")
  case (Inl e)
  with assms show ?thesis
    by (auto simp: generate_grid_store_def generate_grid_def metric_cells_def)
next
  case m: (Inr m)
  show ?thesis
  proof (cases "int_bounds (total_bounds m)")
    case (Inl e)
    with assms m show ?thesis
      by (auto simp: generate_grid_store_def generate_grid_def metric_cells_def alloc_def
          nth_append)
  next
    case b: (Inr b)
    show ?thesis
    proof (cases "grid_polygons meters_on_side_of_acre b")
      case (Inl e)
      with assms m b show ?thesis
        by (auto simp: generate_grid_store_def generate_grid_def metric_cells_def alloc_def
            nth_append)
    next
      case p: (Inr polygons)
      show ?thesis
      proof (cases "to_crs \<lparr>geometry = polygons, crs = Some metric_crs\<rparr> (crs (h ! r))")
        case (Inl e)
        with assms m b p show ?thesis
          by (auto simp: generate_grid_store_def generate_grid_def metric_cells_def alloc_def
              nth_append)
      next
        case (Inr out)
        with assms m b p show ?thesis
          by (auto simp: generate_grid_store_def generate_grid_def metric_cells_def alloc_def
              nth_append)
      qed
    qed
  qed
qed

theorem generate_grid_store_frame_witness:
  "(0::nat) < length [reference_box] \<and>
   generate_grid_store retag [reference_box] 0 =
     (Inr 3,
      [reference_box,
       reference_box\<lparr>crs := Some metric_crs\<rparr>,
       \<lparr>geometry = [cell 64 1000 2064, cell 64 1000 2000, cell 64 1064 2064, cell 64 1064 2000],
        crs = Some metric_crs\<rparr>,
       \<lparr>geometry = [cell 64 1000 2064, cell 64 1000 2000, cell 64 1064 2064, cell 64 1064 2000],
        crs = Some ''epsg:4326''\<rparr>]) \<and>
   generate_grid retag reference_box =
     Inr \<lparr>geometry = [cell 64 1000 2064, cell 64 1000 2000, cell 64 1064 2064, cell 64 1064 2000],
          crs = Some ''epsg:4326''\<rparr>"
proof -
  have l: "(0::nat) < length [reference_box]" by simp
  have run: "generate_grid_store retag [reference_box] 0 =
     (Inr 3,
      [reference_box,
       reference_box\<lparr>crs := Some metric_crs\<rparr>,
       \<lparr>geometry = [cell 64 1000 2064, cell 64 1000 2000, cell 64 1064 2064, cell 64 1064 2000],
        crs = Some metric_crs\<rparr>,
       \<lparr>geometry = [cell 64 1000 2064, cell 64 1000 2000, cell 64 1064 2064, cell 64 1064 2000],
        crs = Some ''epsg:4326''\<rparr>])"
    by (simp add: generate_grid_store_def retag_def alloc_def total_bounds_reference_box
        int_bounds_def meters_on_side_of_acre_def grid_polygons_pos range_up.simps)
       (simp add: reference_box_def)
  from generate_grid_store_frame [OF l run] l run show ?thesis by simp
qed

text \<open>
  C10. For every input and every reprojection, \<open>generate_grid\<close> reprojects the input
  to \<open>epsg:2773\<close>, tiles the floored bounds with cell side 64, tags the dataframe of
  cells with \<open>epsg:2773\<close>, and reprojects it to the CRS of the input. Its only
  arguments are the reprojection and the input dataframe.
\<close>

theorem generate_grid_constants:
  "generate_grid to_crs g =
     (case to_crs g (Some ''epsg:2773'') of
        Inl e \<Rightarrow> Inl e
      | Inr m \<Rightarrow>
          (case int_bounds (total_bounds m) of
             Inl e \<Rightarrow> Inl e
           | Inr b \<Rightarrow>
               (case grid_polygons 64 b of
                  Inl e \<Rightarrow> Inl e
                | Inr polygons \<Rightarrow>
                    to_crs \<lparr>geometry = polygons, crs = Some ''epsg:2773''\<rparr> (crs g))))"
  by (simp add: generate_grid_def metric_cells_def metric_crs_def meters_on_side_of_acre_def
      split: sum.splits)

theorem generate_grid_constants_witness:
  "generate_grid retag reference_box =
     Inr \<lparr>geometry =
            [Polygon [(1000, 2064), (1064, 2064), (1064, 2000), (1000, 2000)],
             Polygon [(1000, 2000), (1064, 2000), (1064, 1936), (1000, 1936)],
             Polygon [(1064, 2064), (1128, 2064), (1128, 2000), (1064, 2000)],
             Polygon [(1064, 2000), (1128, 2000), (1128, 1936), (1064, 1936)]],
          crs = Some ''epsg:4326''\<rparr>"
  using generate_grid_constants [of retag reference_box]
  by (simp add: retag_def total_bounds_reference_box int_bounds_def grid_polygons_pos
      range_up.simps cell_def)
     (simp add: reference_box_def)

end
